theory Spec2Isabelle
  imports Complex_Main "HOL-Library.Sublist" "HOL-Library.Log_Nat"
begin

section \<open>Data model\<close>

text \<open>
  Python text is modelled as \<open>string\<close>: a list of code points below 256. Exceptions
  are values of \<open>error\<close>; only the exceptions the modelled code can raise are listed.
\<close>

datatype error = ZeroDivisionError | OverflowError | AttributeError | TypeError

section \<open>Python numbers\<close>

text \<open>
  A Python float is an IEEE 754 double: a finite value, an infinity or a NaN. A finite
  double is modelled by the real number it stands for; the two zeros are one value (they
  compare equal and give the same sums, quotients by a non-zero divisor and
  comparisons).
\<close>

datatype pyfloat = Finite real | PosInf | NegInf | NaN

text \<open>A value of a reading is a Python int (unbounded) or a Python float.\<close>

datatype pynum = PyInt int | PyFloat pyfloat

text \<open>\<open>pow2 q\<close> is 2 to the power \<open>q\<close>, for an integer \<open>q\<close>.\<close>

definition pow2 :: "int \<Rightarrow> real" where
  "pow2 q = (if 0 \<le> q then 2 ^ nat q else 1 / 2 ^ nat (- q))"

text \<open>
  For \<open>a > 0\<close>, the integer \<open>e\<close> with \<open>2^e \<le> a < 2^(e+1)\<close>. For \<open>a \<ge> 1\<close> it is
  the bit length of the integer part, less one; for \<open>a < 1\<close> it is minus the least
  \<open>k\<close> with \<open>2^k \<ge> 1/a\<close>, which is the bit length of \<open>\<lceil>1/a\<rceil> - 1\<close>.
\<close>

definition floor_log2 :: "real \<Rightarrow> int" where
  "floor_log2 a = (if 1 \<le> a then bitlen \<lfloor>a\<rfloor> - 1 else - bitlen (\<lceil>1 / a\<rceil> - 1))"

text \<open>Rounding to the nearest integer, a tie going to the even one.\<close>

definition round_half_even :: "real \<Rightarrow> int" where
  "round_half_even x =
     (if x - of_int \<lfloor>x\<rfloor> < 1 / 2 then \<lfloor>x\<rfloor>
      else if 1 / 2 < x - of_int \<lfloor>x\<rfloor> then \<lfloor>x\<rfloor> + 1
      else if even \<lfloor>x\<rfloor> then \<lfloor>x\<rfloor>
      else \<lfloor>x\<rfloor> + 1)"

text \<open>
  The exponent of the last place of a double of magnitude \<open>a\<close>: 52 binary places
  below the leading one, and never below the subnormal spacing \<open>2^(-1074)\<close>.
\<close>

definition ulp_exponent :: "real \<Rightarrow> int" where
  "ulp_exponent a = max (floor_log2 a - 52) (- 1074)"

definition nearest_multiple :: "int \<Rightarrow> real \<Rightarrow> real" where
  "nearest_multiple q a = of_int (round_half_even (a / pow2 q)) * pow2 q"

text \<open>A rounded magnitude of \<open>2^1024\<close> or more overflows to an infinity.\<close>

definition with_overflow :: "bool \<Rightarrow> real \<Rightarrow> pyfloat" where
  "with_overflow positive v =
     (if 2 ^ 1024 \<le> v then (if positive then PosInf else NegInf)
      else Finite (if positive then v else - v))"

text \<open>
  The double nearest to a real number (round to nearest, ties to even), as every
  arithmetic operation on doubles and the conversion from int produce it.
\<close>

definition round_double :: "real \<Rightarrow> pyfloat" where
  "round_double x =
     (if x = 0 then Finite 0
      else with_overflow (0 < x) (nearest_multiple (ulp_exponent \<bar>x\<bar>) \<bar>x\<bar>))"

text \<open>
  \<open>float(i)\<close> for an int, as the mixed operations call it: the nearest double, or
  \<open>OverflowError\<close> ("int too large to convert to float").
\<close>

definition float_of_int :: "int \<Rightarrow> error + real" where
  "float_of_int i =
     (case round_double (of_int i) of Finite r \<Rightarrow> Inr r | _ \<Rightarrow> Inl OverflowError)"

text \<open>\<open>x + y\<close> on floats.\<close>

fun float_add :: "pyfloat \<Rightarrow> pyfloat \<Rightarrow> pyfloat" where
  "float_add (Finite a) (Finite b) = round_double (a + b)"
| "float_add NaN y = NaN"
| "float_add x NaN = NaN"
| "float_add PosInf NegInf = NaN"
| "float_add NegInf PosInf = NaN"
| "float_add PosInf y = PosInf"
| "float_add x PosInf = PosInf"
| "float_add NegInf y = NegInf"
| "float_add x NegInf = NegInf"

text \<open>\<open>a + b\<close> on numbers: exact on ints; an int meeting a float is converted first.\<close>

fun py_add :: "pynum \<Rightarrow> pynum \<Rightarrow> error + pynum" where
  "py_add (PyInt a) (PyInt b) = Inr (PyInt (a + b))"
| "py_add (PyInt a) (PyFloat y) =
     (case float_of_int a of Inl e \<Rightarrow> Inl e | Inr r \<Rightarrow> Inr (PyFloat (float_add (Finite r) y)))"
| "py_add (PyFloat x) (PyInt b) =
     (case float_of_int b of Inl e \<Rightarrow> Inl e | Inr r \<Rightarrow> Inr (PyFloat (float_add x (Finite r))))"
| "py_add (PyFloat x) (PyFloat y) = Inr (PyFloat (float_add x y))"

text \<open>
  \<open>sum(values)\<close>: the loop adds the items from left to right, starting from the int
  \<open>0\<close>. (CPython up to 3.11 adds floats in this plain way; from 3.12 on \<open>sum\<close>
  also carries a correction term.)
\<close>

fun sum_from :: "pynum \<Rightarrow> pynum list \<Rightarrow> error + pynum" where
  "sum_from acc [] = Inr acc"
| "sum_from acc (x # xs) =
     (case py_add acc x of Inl e \<Rightarrow> Inl e | Inr acc2 \<Rightarrow> sum_from acc2 xs)"

definition py_sum :: "pynum list \<Rightarrow> error + pynum" where
  "py_sum xs = sum_from (PyInt 0) xs"

text \<open>
  \<open>x / y\<close> for a float \<open>x\<close> and a finite divisor \<open>y\<close>: \<open>ZeroDivisionError\<close> ("float
  division by zero") when \<open>y\<close> is zero.
\<close>

definition float_div :: "pyfloat \<Rightarrow> real \<Rightarrow> error + pyfloat" where
  "float_div x y =
     (if y = 0 then Inl ZeroDivisionError
      else Inr (case x of
                  Finite a \<Rightarrow> round_double (a / y)
                | PosInf \<Rightarrow> (if 0 < y then PosInf else NegInf)
                | NegInf \<Rightarrow> (if 0 < y then NegInf else PosInf)
                | NaN \<Rightarrow> NaN))"

text \<open>
  \<open>s / n\<close> where \<open>n\<close> is the int \<open>len(...)\<close>. For an int \<open>s\<close> the quotient of the two
  ints is rounded once; it raises \<open>ZeroDivisionError\<close> for \<open>n = 0\<close> and
  \<open>OverflowError\<close> ("integer division result too large for a float") when the
  quotient is beyond the doubles. For a float \<open>s\<close> the divisor is converted to a float
  first.
\<close>

fun py_truediv :: "pynum \<Rightarrow> nat \<Rightarrow> error + pyfloat" where
  "py_truediv (PyInt s) n =
     (if n = 0 then Inl ZeroDivisionError
      else (case round_double (of_int s / of_nat n) of
              Finite r \<Rightarrow> Inr (Finite r)
            | _ \<Rightarrow> Inl OverflowError))"
| "py_truediv (PyFloat x) n =
     (case float_of_int (int n) of Inl e \<Rightarrow> Inl e | Inr y \<Rightarrow> float_div x y)"

text \<open>\<open>sum(values) / len(values)\<close>, the expression of both averages.\<close>

definition py_mean :: "pynum list \<Rightarrow> error + pyfloat" where
  "py_mean xs = (case py_sum xs of Inl e \<Rightarrow> Inl e | Inr s \<Rightarrow> py_truediv s (length xs))"

text \<open>
  Comparisons of a float with a number of the program text (\<open>120\<close>, \<open>40\<close>, \<open>0\<close>);
  every comparison with a NaN is false.
\<close>

fun py_lt :: "pyfloat \<Rightarrow> real \<Rightarrow> bool" where
  "py_lt (Finite a) c = (a < c)"
| "py_lt NegInf c = True"
| "py_lt PosInf c = False"
| "py_lt NaN c = False"

fun py_gt :: "pyfloat \<Rightarrow> real \<Rightarrow> bool" where
  "py_gt (Finite a) c = (c < a)"
| "py_gt PosInf c = True"
| "py_gt NegInf c = False"
| "py_gt NaN c = False"

fun py_ge :: "pyfloat \<Rightarrow> real \<Rightarrow> bool" where
  "py_ge (Finite a) c = (c \<le> a)"
| "py_ge PosInf c = True"
| "py_ge NegInf c = False"
| "py_ge NaN c = False"




section \<open>Records\<close>

text \<open>One zone's reading: the dictionary built by \<open>SoilSensorNetwork.read_sensors\<close>.\<close>

record Reading =
  zone_id :: int
  nitrogen :: pynum
  phosphorus :: pynum
  potassium :: pynum
  ph :: pynum
  moisture :: pynum
  status :: string

text \<open>The dictionary returned by \<open>CropConsultant.analyze_field\<close>.\<close>

record Diagnosis =
  avg_n :: pyfloat
  avg_m :: pyfloat
  anomalies :: "string list"

text \<open>A search result: the dictionary with the keys \<open>title\<close> and \<open>body\<close>.\<close>

record Document =
  title :: string
  body :: string

record Recommendation =
  alert_level :: string
  diagnosis :: string
  action_plan :: string
  sources :: "string list"

section \<open>Python text operations\<close>

text \<open>\<open>p in s\<close> on text: \<open>p\<close> occurs in \<open>s\<close> as a contiguous run.\<close>

fun py_in :: "string \<Rightarrow> string \<Rightarrow> bool" where
  "py_in p [] = (p = [])"
| "py_in p (c # cs) = (prefix p (c # cs) \<or> py_in p cs)"

text \<open>
  \<open>str.lower\<close> on code points below 256: the ASCII capitals and the Latin-1 capitals
  (0xC0 to 0xDE without the multiplication sign 0xD7) move up by 32.
\<close>

definition lower_char :: "char \<Rightarrow> char" where
  "lower_char c =
     (let n = (of_char c :: nat)
      in if (65 \<le> n \<and> n \<le> 90) \<or> (192 \<le> n \<and> n \<le> 222 \<and> n \<noteq> 215)
         then char_of (n + 32) else c)"

definition py_lower :: "string \<Rightarrow> string" where
  "py_lower s = map lower_char s"

text \<open>\<open>str.isspace\<close> on code points below 256.\<close>

definition is_space :: "char \<Rightarrow> bool" where
  "is_space c =
     (let n = (of_char c :: nat)
      in (9 \<le> n \<and> n \<le> 13) \<or> (28 \<le> n \<and> n \<le> 32) \<or> n = 133 \<or> n = 160)"

text \<open>\<open>s.split()\<close>: the maximal runs of characters that are not white space.\<close>

fun split_from :: "string \<Rightarrow> string \<Rightarrow> string list" where
  "split_from w [] = (if w = [] then [] else [w])"
| "split_from w (c # cs) =
     (if is_space c then (if w = [] then split_from [] cs else w # split_from [] cs)
      else split_from (w @ [c]) cs)"

definition py_split :: "string \<Rightarrow> string list" where
  "py_split s = split_from [] s"

text \<open>\<open>xs[:n]\<close> for an integer \<open>n\<close>: a negative \<open>n\<close> counts from the end.\<close>

definition py_slice_to :: "'a list \<Rightarrow> int \<Rightarrow> 'a list" where
  "py_slice_to xs n = (if 0 \<le> n then take (nat n) xs else take (length xs - nat (- n)) xs)"

text \<open>\<open>sep.join(xs)\<close>.\<close>

fun py_join :: "string \<Rightarrow> string list \<Rightarrow> string" where
  "py_join sep [] = []"
| "py_join sep [x] = x"
| "py_join sep (x # y # ys) = x @ sep @ py_join sep (y # ys)"

text \<open>
  \<open>repr\<close> of a text, on code points below 256. The quote is the double quote when the
  text holds a single quote and no double quote, the single quote otherwise. The quote
  and the backslash are escaped with a backslash; tab, line feed and carriage return
  become \<open>\t\<close>, \<open>\n\<close>, \<open>\r\<close>; a printable character stands for itself; any other
  character becomes \<open>\xhh\<close> with two lower-case hexadecimal digits.
\<close>

definition is_printable :: "char \<Rightarrow> bool" where
  "is_printable c =
     (let n = (of_char c :: nat) in (32 \<le> n \<and> n < 127) \<or> (161 \<le> n \<and> n \<noteq> 173))"

definition hex_digit :: "nat \<Rightarrow> char" where
  "hex_digit n = ''0123456789abcdef'' ! (n mod 16)"

definition repr_char :: "char \<Rightarrow> char \<Rightarrow> string" where
  "repr_char quote c =
     (if c = quote \<or> c = CHR 0x5C then [CHR 0x5C, c]
      else if c = CHR 0x09 then [CHR 0x5C, CHR ''t'']
      else if c = CHR 0x0A then [CHR 0x5C, CHR ''n'']
      else if c = CHR 0x0D then [CHR 0x5C, CHR ''r'']
      else if is_printable c then [c]
      else [CHR 0x5C, CHR ''x'', hex_digit (of_char c div 16), hex_digit (of_char c)])"

definition repr_quote :: "string \<Rightarrow> char" where
  "repr_quote s = (if CHR 0x27 \<in> set s \<and> CHR 0x22 \<notin> set s then CHR 0x22 else CHR 0x27)"

definition py_repr :: "string \<Rightarrow> string" where
  "py_repr s = [repr_quote s] @ concat (map (repr_char (repr_quote s)) s) @ [repr_quote s]"

text \<open>\<open>str(xs)\<close> for a list of texts: the \<open>repr\<close> of the items between brackets.\<close>

definition py_str_list :: "string list \<Rightarrow> string" where
  "py_str_list xs = ''['' @ py_join '', '' (map py_repr xs) @ '']''"

section \<open>Phase 1: diagnosis\<close>

definition nitrogen_label :: string where
  "nitrogen_label = ''Nitrogen Deficiency detected across multiple zones''"

definition moisture_label :: string where
  "moisture_label = ''Excessive Soil Moisture detected''"

text \<open>
  \<open>CropConsultant.analyze_field\<close>. Both averages are \<open>sum(...) / len(...)\<close>; the
  source has no check of the readings before the division. The printed messages are
  not modelled.
\<close>

definition analyze_field :: "Reading list \<Rightarrow> error + Diagnosis" where
  "analyze_field sensor_readings =
     (case py_mean (map nitrogen sensor_readings) of
        Inl e \<Rightarrow> Inl e
      | Inr avgn \<Rightarrow>
     (case py_mean (map moisture sensor_readings) of
        Inl e \<Rightarrow> Inl e
      | Inr avgm \<Rightarrow>
          (let found0 = [];
               found1 = (if py_lt avgn 120 then found0 @ [nitrogen_label] else found0);
               found2 = (if py_gt avgm 40 then found1 @ [moisture_label] else found1)
           in Inr \<lparr>avg_n = avgn, avg_m = avgm, anomalies = found2\<rparr>)))"

section \<open>The knowledge lookup\<close>

text \<open>
  \<open>AgriSearch\<close>: the mode flag and the mock database, a dictionary in insertion order
  (an association list with distinct keys).
\<close>

record AgriSearch =
  simulation_mode :: bool
  mock_db :: "(string \<times> Document list) list"

definition fallback_key :: string where
  "fallback_key = ''corn nitrogen deficiency treatments''"

definition mock_db_init :: "(string \<times> Document list) list" where
  "mock_db_init =
     [(''corn nitrogen deficiency treatments'',
        [\<lparr>title = ''Management of Nitrogen Deficiency in Corn'',
          body = ''Apply side-dress nitrogen immediately at V4-V8 stages. Sources like UAN or Urea are effective. Rate: 40-60 lbs/acre. Delayed application can recover up to 90% of yield potential.''\<rparr>,
         \<lparr>title = ''Identifying Nutrient Deficiencies in Corn'',
          body = ''Yellowing in V-shape starting at leaf tip indicates N deficiency. Wet soils can exacerbate leaching, requiring supplemental N.''\<rparr>,
         \<lparr>title = ''Wet Season Corn Nitrogen Management'',
          body = ''In years with excessive rainfall, additional N applications (30-50 lbs N/acre) are profitable. Rescue applications must occur before silking.''\<rparr>]),
      (''corn nitrogen deficiency heavy rainfall'',
        [\<lparr>title = ''Nitrogen Loss from Heavy Rains'',
          body = ''Heavy rainfall causes denitrification and leaching. For every inch of rain above soil saturation, expect 2-4% nitrate loss. Supplemental N is critical.''\<rparr>]),
      (''soybean moisture requirements'',
        [\<lparr>title = ''Soybean Water Requirements'',
          body = ''Soybeans require 15-25 inches of water per season. Critical period is pod filling (R3-R6).''\<rparr>])]"

text \<open>\<open>AgriSearch.__init__\<close>.\<close>

definition AgriSearch_init :: "bool \<Rightarrow> AgriSearch" where
  "AgriSearch_init mode = \<lparr>simulation_mode = mode, mock_db = mock_db_init\<rparr>"

text \<open>
  The live backend is outside the program, so it is a parameter. \<open>None\<close>: the import of
  \<open>DDGS\<close> failed. \<open>Some text\<close>: \<open>text query max_results\<close> is \<open>None\<close> when the
  body of the \<open>try\<close> raises an \<open>Exception\<close>, and \<open>Some docs\<close> when it returns the
  list \<open>docs\<close> of converted results.
\<close>

type_synonym ddgs = "(string \<Rightarrow> int \<Rightarrow> Document list option) option"

text \<open>
  What \<open>search\<close> returns: a list object of its own (\<open>Fresh\<close>), the list object the
  mock database holds under a key (\<open>Stored\<close>, returned by \<open>self.mock_db.get\<close>), or
  Python's \<open>None\<close> when \<open>get\<close> finds no such key.
\<close>

datatype search_result = Fresh "Document list" | Stored string | NoneResult

text \<open>\<open>all(k in query_lower for k in key.split())\<close>.\<close>

definition key_matches :: "string \<Rightarrow> string \<Rightarrow> bool" where
  "key_matches query_lower key = list_all (\<lambda>k. py_in k query_lower) (py_split key)"

text \<open>The loop over \<open>self.mock_db.items()\<close>, with the list \<open>results\<close> it extends.\<close>

fun collect :: "string \<Rightarrow> (string \<times> Document list) list \<Rightarrow> Document list \<Rightarrow> Document list" where
  "collect query_lower [] results = results"
| "collect query_lower ((key, res_list) # rest) results =
     collect query_lower rest
       (if key_matches query_lower key then results @ res_list else results)"

definition generic_doc :: "string \<Rightarrow> Document" where
  "generic_doc query =
     \<lparr>title = ''Agricultural Bulletin: '' @ query,
      body = ''Recent studies show that regarding '' @ query @
             '', optimal management requires monitoring soil conditions and weather patterns closely.''\<rparr>"

text \<open>
  \<open>AgriSearch.search\<close>. The pause \<open>time.sleep(0.8)\<close> and the printed messages are not
  modelled.
\<close>

definition search :: "ddgs \<Rightarrow> AgriSearch \<Rightarrow> string \<Rightarrow> int \<Rightarrow> search_result" where
  "search env self query max_results =
     (if simulation_mode self then
        (let query_lower = py_lower query;
             results = collect query_lower (mock_db self) []
         in if results \<noteq> [] then Fresh (py_slice_to results max_results)
            else Fresh [generic_doc query])
      else
        (case (case env of None \<Rightarrow> None | Some text \<Rightarrow> text query max_results) of
           Some docs \<Rightarrow> Fresh docs
         | None \<Rightarrow>
             (case map_of (mock_db self) fallback_key of
                None \<Rightarrow> NoneResult
              | Some stored \<Rightarrow> Stored fallback_key)))"

text \<open>The default of the parameter \<open>max_results\<close>.\<close>

definition default_max_results :: int where
  "default_max_results = 3"

text \<open>The documents a returned value holds, in the current state of the tool.\<close>

definition docs_of :: "AgriSearch \<Rightarrow> search_result \<Rightarrow> Document list option" where
  "docs_of self r =
     (case r of
        Fresh docs \<Rightarrow> Some docs
      | Stored key \<Rightarrow> map_of (mock_db self) key
      | NoneResult \<Rightarrow> None)"

section \<open>Phase 2: research\<close>

text \<open>\<open>CropConsultant.__init__\<close>: the tool is \<open>AgriSearch()\<close>, or \<open>None\<close>.\<close>

record CropConsultant =
  search_tool :: "AgriSearch option"

definition CropConsultant_init :: "bool \<Rightarrow> CropConsultant" where
  "CropConsultant_init use_search =
     \<lparr>search_tool = (if use_search then Some (AgriSearch_init True) else None)\<rparr>"

text \<open>
  \<open>results.extend(added)\<close> where \<open>results\<close> is a value returned by \<open>search\<close>: a stored
  list is extended in place, inside the mock database.
\<close>

definition store_list :: "string \<Rightarrow> Document list \<Rightarrow> AgriSearch \<Rightarrow> AgriSearch" where
  "store_list key docs self =
     self\<lparr>mock_db := map (\<lambda>(k, v). if k = key then (k, docs) else (k, v)) (mock_db self)\<rparr>"

definition extend_result :: "AgriSearch \<Rightarrow> search_result \<Rightarrow> Document list \<Rightarrow> search_result \<times> AgriSearch" where
  "extend_result self results added =
     (case results of
        Fresh docs \<Rightarrow> (Fresh (docs @ added), self)
      | Stored key \<Rightarrow>
          (case map_of (mock_db self) key of
             Some docs \<Rightarrow> (Stored key, store_list key (docs @ added) self)
           | None \<Rightarrow> (Stored key, self))
      | NoneResult \<Rightarrow> (NoneResult, self))"

definition primary_query :: "string \<Rightarrow> string \<Rightarrow> string" where
  "primary_query crop issue = crop @ '' '' @ issue @ '' treatments''"

definition refinement_query :: "string \<Rightarrow> string" where
  "refinement_query crop = crop @ '' nitrogen deficiency heavy rainfall leaching''"

text \<open>
  One record per call of \<open>search\<close>: the query, and the documents of the returned value
  at the moment of the return (\<open>None\<close> for Python's \<open>None\<close>).
\<close>

type_synonym lookup = "string \<times> Document list option"

text \<open>
  The loop \<open>for issue in anomalies\<close>. The state is the tool, the list \<open>findings\<close> and
  the calls made so far; the result is the raised exception or the findings, with the
  calls and the tool as they are then. In \<open>results.extend(search(refinement))\<close> Python
  looks up \<open>results.extend\<close> before it evaluates the argument, so \<open>None\<close> as
  \<open>results\<close> raises \<open>AttributeError\<close> before the second call.
\<close>

fun research_loop ::
  "ddgs \<Rightarrow> string list \<Rightarrow> string \<Rightarrow> string list \<Rightarrow> AgriSearch \<Rightarrow> Document list \<Rightarrow> lookup list
     \<Rightarrow> (error + Document list) \<times> lookup list \<times> AgriSearch" where
  "research_loop env given crop [] self findings calls = (Inr findings, calls, self)"
| "research_loop env given crop (issue # rest) self findings calls =
     (let query = primary_query crop issue;
          results = search env self query default_max_results;
          calls1 = calls @ [(query, docs_of self results)]
      in if py_in ''Nitrogen'' issue \<and> py_in ''Moisture'' (py_str_list given) then
           (let refinement = refinement_query crop
            in if results = NoneResult then (Inl AttributeError, calls1, self)
               else
                 (let second = search env self refinement default_max_results;
                      calls2 = calls1 @ [(refinement, docs_of self second)]
                  in case docs_of self second of
                       None \<Rightarrow> (Inl TypeError, calls2, self)
                     | Some extra \<Rightarrow>
                         (let (results2, self2) = extend_result self results extra
                          in case docs_of self2 results2 of
                               None \<Rightarrow> (Inl TypeError, calls2, self2)
                             | Some docs \<Rightarrow>
                                 research_loop env given crop rest self2 (findings @ docs) calls2)))
         else
           (case docs_of self results of
              None \<Rightarrow> (Inl TypeError, calls1, self)
            | Some docs \<Rightarrow> research_loop env given crop rest self (findings @ docs) calls1))"

text \<open>
  \<open>CropConsultant.research_solutions\<close>: the returned list or the raised exception, the
  calls of \<open>search\<close> it made, and the consultant afterwards. Without a tool
  (\<open>use_search = False\<close>) the first call raises \<open>AttributeError\<close>.
\<close>

definition research_solutions ::
  "ddgs \<Rightarrow> CropConsultant \<Rightarrow> string list \<Rightarrow> string
     \<Rightarrow> (error + Document list) \<times> lookup list \<times> CropConsultant" where
  "research_solutions env agent given crop =
     (if given = [] then (Inr [], [], agent)
      else
        (case search_tool agent of
           None \<Rightarrow> (Inl AttributeError, [], agent)
         | Some self \<Rightarrow>
             (case research_loop env given crop given self [] [] of
                (res, calls, self2) \<Rightarrow> (res, calls, agent\<lparr>search_tool := Some self2\<rparr>))))"

section \<open>Phase 3: synthesis\<close>

definition plan_text :: string where
  "plan_text =
     ''**IMMEDIATE ACTION REQUIRED**'' @ [CHR 0x0A, CHR 0x0A] @
     ''1. **Nitrogen Application**: Field averages indicate critical N deficiency (Avg < 120mg/kg). '' @
     ''However, due to high moisture levels, standard pre-plant application is ineffective.'' @ [CHR 0x0A] @
     ''2. **Recommendation**: Switch to a **side-dress application** of UAN-28 or Urea with a urease inhibitor. '' @
     ''Wait for soil to drain to field capacity before traffic to avoid compaction.'' @ [CHR 0x0A] @
     ''3. **Rate**: Target 40-60 lbs N/acre rescue application.''"

text \<open>
  \<open>CropConsultant.generate_plan\<close>. The pause \<open>time.sleep(1.0)\<close> and the progress
  message are not modelled. \<open>research[:2]\<close> is \<open>take 2\<close>.
\<close>

definition generate_plan :: "Diagnosis \<Rightarrow> Document list \<Rightarrow> Recommendation" where
  "generate_plan d research =
     (if anomalies d = [] then
        \<lparr>alert_level = ''GREEN'',
         diagnosis = ''Optimal Conditions'',
         action_plan = ''Continue monitoring. No intervention required.'',
         sources = []\<rparr>
      else
        (let alert = (if length (anomalies d) > 1 then ''RED'' else ''YELLOW'');
             cited = map title (take 2 research)
         in \<lparr>alert_level = alert,
             diagnosis = py_join ''; '' (anomalies d),
             action_plan = plan_text,
             sources = cited\<rparr>))"

section \<open>Properties of rounding\<close>

lemma pow2_pos: "0 < pow2 q"
  by (simp add: pow2_def)

lemma round_half_even_nonneg: "0 \<le> x \<Longrightarrow> 0 \<le> round_half_even x"
  by (simp add: round_half_even_def)

lemma round_half_even_ge_one: "1 \<le> x \<Longrightarrow> 1 \<le> round_half_even x"
  by (simp add: round_half_even_def)

lemma round_half_even_le: "real_of_int (round_half_even x) \<le> x + 1"
proof -
  have "real_of_int \<lfloor>x\<rfloor> \<le> x + 1"
    using of_int_floor_le [of x] by linarith
  then show ?thesis by (auto simp: round_half_even_def)
qed

lemma nearest_multiple_nonneg: "0 \<le> a \<Longrightarrow> 0 \<le> nearest_multiple q a"
  using pow2_pos [of q] by (simp add: nearest_multiple_def round_half_even_nonneg)

lemma round_double_nonneg:
  assumes "0 \<le> x"
  shows "py_ge (round_double x) 0"
proof (cases "x = 0")
  case True
  then show ?thesis by (simp add: round_double_def)
next
  case False
  with assms have "0 < x" by simp
  moreover have "0 \<le> nearest_multiple (ulp_exponent \<bar>x\<bar>) \<bar>x\<bar>"
    by (simp add: nearest_multiple_nonneg)
  ultimately show ?thesis
    by (simp add: round_double_def with_overflow_def)
qed

lemma ulp_exponent_le:
  assumes "1 \<le> a"
  shows "pow2 (ulp_exponent a) \<le> a"
proof -
  let ?n = "\<lfloor>a\<rfloor>"
  have n: "0 < ?n" using assms by simp
  have "1 \<le> bitlen ?n"
    using n by (simp add: bitlen_ge_iff_power)
  then have e: "0 \<le> bitlen ?n - 1" by simp
  have u: "ulp_exponent a = bitlen ?n - 1 - 52"
    using assms e by (simp add: ulp_exponent_def floor_log2_def)
  have "pow2 (bitlen ?n - 1 - 52) \<le> 2 ^ nat (bitlen ?n - 1)"
  proof (cases "0 \<le> bitlen ?n - 1 - 52")
    case True
    then have "nat (bitlen ?n - 1 - 52) \<le> nat (bitlen ?n - 1)" by simp
    then have "(2::real) ^ nat (bitlen ?n - 1 - 52) \<le> 2 ^ nat (bitlen ?n - 1)"
      by (rule power_increasing) simp
    with True show ?thesis by (simp add: pow2_def)
  next
    case False
    have "1 / (2::real) ^ nat (- (bitlen ?n - 1 - 52)) \<le> 1" by simp
    also have "(1::real) \<le> 2 ^ nat (bitlen ?n - 1)" by simp
    finally show ?thesis using False by (simp add: pow2_def)
  qed
  also have "(2::real) ^ nat (bitlen ?n - 1) \<le> real_of_int ?n"
  proof -
    have "2 ^ nat (bitlen ?n - 1) \<le> ?n"
      using bitlen_bounds [OF n] by simp
    then have "real_of_int (2 ^ nat (bitlen ?n - 1)) \<le> real_of_int ?n"
      by (simp only: of_int_le_iff)
    then show ?thesis by simp
  qed
  also have "real_of_int ?n \<le> a" by simp
  finally show ?thesis using u by simp
qed

lemma nearest_multiple_bounds:
  assumes "1 \<le> a"
  shows "0 < nearest_multiple (ulp_exponent a) a"
    and "nearest_multiple (ulp_exponent a) a \<le> 2 * a"
proof -
  let ?p = "pow2 (ulp_exponent a)"
  have p: "0 < ?p" by (rule pow2_pos)
  have le: "?p \<le> a" by (rule ulp_exponent_le [OF assms])
  then have "1 \<le> a / ?p" using p by (simp add: le_divide_eq)
  then have "1 \<le> round_half_even (a / ?p)" by (rule round_half_even_ge_one)
  then have "0 < real_of_int (round_half_even (a / ?p))" by simp
  then show "0 < nearest_multiple (ulp_exponent a) a"
    using p by (simp add: nearest_multiple_def)
  have "real_of_int (round_half_even (a / ?p)) * ?p \<le> (a / ?p + 1) * ?p"
    using round_half_even_le [of "a / ?p"] p by (simp only: mult_le_cancel_right_pos)
  also have "(a / ?p + 1) * ?p = a + ?p"
    using p by (simp add: field_simps)
  also have "a + ?p \<le> 2 * a" using le by simp
  finally show "nearest_multiple (ulp_exponent a) a \<le> 2 * a"
    by (simp add: nearest_multiple_def)
qed

lemma round_double_positive:
  assumes "1 \<le> x"
  shows "round_double x \<noteq> Finite 0"
  using assms nearest_multiple_bounds(1) [of x]
  by (auto simp: round_double_def with_overflow_def)


lemma float_of_int_length_positive:
  assumes "float_of_int (int n) = Inr y" and "n \<noteq> 0"
  shows "0 < y"
proof -
  have one: "1 \<le> real_of_int (int n)" using assms(2) by simp
  from assms(1) have r: "round_double (real_of_int (int n)) = Finite y"
    by (simp add: float_of_int_def split: pyfloat.splits)
  have "py_ge (round_double (real_of_int (int n))) 0"
    by (rule round_double_nonneg) simp
  with r have "0 \<le> y" by simp
  moreover have "y \<noteq> 0"
    using round_double_positive [OF one] r by simp
  ultimately show ?thesis by simp
qed


section \<open>Properties of the diagnosis\<close>


lemma float_of_int_error: "float_of_int i = Inl e \<Longrightarrow> e = OverflowError"
  by (simp add: float_of_int_def split: pyfloat.splits)


lemma py_add_error: "py_add a b = Inl e \<Longrightarrow> e = OverflowError"
  by (cases a; cases b) (auto split: sum.splits dest: float_of_int_error)

lemma sum_from_error: "sum_from acc xs = Inl e \<Longrightarrow> e = OverflowError"
  by (induction xs arbitrary: acc) (auto split: sum.splits dest: py_add_error)

lemma py_truediv_no_zero_division:
  assumes "n \<noteq> 0"
  shows "py_truediv s n \<noteq> Inl ZeroDivisionError"
proof (cases s)
  case (PyInt i)
  with assms show ?thesis by (simp split: pyfloat.splits)
next
  case (PyFloat x)
  show ?thesis
  proof (cases "float_of_int (int n)")
    case (Inl e)
    with PyFloat float_of_int_error [of "int n" e] show ?thesis by simp
  next
    case (Inr y)
    with float_of_int_length_positive [OF Inr assms] PyFloat show ?thesis
      by (simp add: float_div_def)
  qed
qed

lemma py_mean_no_zero_division:
  assumes "xs \<noteq> []"
  shows "py_mean xs \<noteq> Inl ZeroDivisionError"
proof (cases "py_sum xs")
  case (Inl e)
  then have "e = OverflowError"
    by (simp add: py_sum_def sum_from_error)
  with Inl show ?thesis by (simp add: py_mean_def)
next
  case (Inr s)
  with py_truediv_no_zero_division [of "length xs" s] assms show ?thesis
    by (simp add: py_mean_def)
qed












text \<open>
  C2, as the code has it: on the empty list of readings the diagnosis raises
  \<open>ZeroDivisionError\<close>, so a division by zero does occur.
\<close>

theorem analyze_field_empty_divides_by_zero:
  "analyze_field [] = Inl ZeroDivisionError"
  by (simp add: analyze_field_def py_mean_def py_sum_def)

text \<open>
  C2, amended: on the empty list of readings the diagnosis fails with
  \<open>ZeroDivisionError\<close>; on a non-empty list no division by zero occurs.
\<close>

theorem analyze_field_zero_division:
  "analyze_field [] = Inl ZeroDivisionError \<and>
   (rs \<noteq> [] \<longrightarrow> analyze_field rs \<noteq> Inl ZeroDivisionError)"
proof -
  have "analyze_field [] = Inl ZeroDivisionError"
    by (simp add: analyze_field_def py_mean_def py_sum_def)
  moreover have "analyze_field rs \<noteq> Inl ZeroDivisionError" if "rs \<noteq> []"
    using py_mean_no_zero_division [of "map nitrogen rs"]
      py_mean_no_zero_division [of "map moisture rs"] that
    by (auto simp: analyze_field_def Let_def split: sum.splits)
  ultimately show ?thesis by simp
qed

theorem analyze_field_zero_division_witness:
  "analyze_field [] = Inl ZeroDivisionError \<and>
   analyze_field
     [\<lparr>zone_id = 1, nitrogen = PyFloat (Finite 80), phosphorus = PyFloat (Finite 50),
       potassium = PyFloat (Finite 150), ph = PyFloat (Finite (13 / 2)),
       moisture = PyFloat (Finite 20), status = ''Optimal''\<rparr>] \<noteq> Inl ZeroDivisionError"
  using analyze_field_zero_division
    [of "[\<lparr>zone_id = 1, nitrogen = PyFloat (Finite 80), phosphorus = PyFloat (Finite 50),
           potassium = PyFloat (Finite 150), ph = PyFloat (Finite (13 / 2)),
           moisture = PyFloat (Finite 20), status = ''Optimal''\<rparr>]"]
  by simp






section \<open>Properties of the synthesis\<close>

text \<open>
  C5: the alert level is GREEN iff the anomaly list is empty, RED iff it has more than
  one entry, and YELLOW otherwise, that is iff it has exactly one entry.
\<close>

theorem generate_plan_alert:
  "(alert_level (generate_plan d found) = ''GREEN'' \<longleftrightarrow> anomalies d = []) \<and>
   (alert_level (generate_plan d found) = ''RED'' \<longleftrightarrow> 1 < length (anomalies d)) \<and>
   (alert_level (generate_plan d found) = ''YELLOW'' \<longleftrightarrow> length (anomalies d) = 1)"
proof (cases "anomalies d")
  case Nil
  then show ?thesis by (simp add: generate_plan_def)
next
  case (Cons a as)
  then show ?thesis by (cases as) (simp_all add: generate_plan_def Let_def)
qed

theorem generate_plan_alert_witness:
  "alert_level (generate_plan \<lparr>avg_n = Finite 160, avg_m = Finite 30, anomalies = []\<rparr> []) = ''GREEN'' \<and>
   alert_level (generate_plan \<lparr>avg_n = Finite 85, avg_m = Finite 30, anomalies = [nitrogen_label]\<rparr> [])
     = ''YELLOW'' \<and>
   alert_level
     (generate_plan \<lparr>avg_n = Finite 85, avg_m = Finite 50, anomalies = [nitrogen_label, moisture_label]\<rparr> [])
     = ''RED''"
  using generate_plan_alert [of "\<lparr>avg_n = Finite 160, avg_m = Finite 30, anomalies = []\<rparr>" "[]"]
    generate_plan_alert [of "\<lparr>avg_n = Finite 85, avg_m = Finite 30, anomalies = [nitrogen_label]\<rparr>" "[]"]
    generate_plan_alert
      [of "\<lparr>avg_n = Finite 85, avg_m = Finite 50, anomalies = [nitrogen_label, moisture_label]\<rparr>" "[]"]
  by simp

text \<open>
  C6: with a non-empty anomaly list the sources are the titles of the first two
  findings in their order, so their number is the smaller of 2 and the number of
  findings; with no findings the sources are empty. The synthesis is a total function:
  it has no failing branch.
\<close>

theorem generate_plan_sources:
  assumes "anomalies d \<noteq> []"
  shows "sources (generate_plan d found) = map title (take 2 found) \<and>
         length (sources (generate_plan d found)) = min 2 (length found) \<and>
         (found = [] \<longrightarrow> sources (generate_plan d found) = [])"
  using assms by (simp add: generate_plan_def Let_def)

theorem generate_plan_sources_witness:
  "sources (generate_plan \<lparr>avg_n = Finite 85, avg_m = Finite 30, anomalies = [nitrogen_label]\<rparr>
     [\<lparr>title = ''A'', body = ''a''\<rparr>, \<lparr>title = ''B'', body = ''b''\<rparr>,
      \<lparr>title = ''C'', body = ''c''\<rparr>]) = [''A'', ''B''] \<and>
   sources (generate_plan \<lparr>avg_n = Finite 85, avg_m = Finite 30, anomalies = [nitrogen_label]\<rparr> []) = []"
  using generate_plan_sources
      [of "\<lparr>avg_n = Finite 85, avg_m = Finite 30, anomalies = [nitrogen_label]\<rparr>"
          "[\<lparr>title = ''A'', body = ''a''\<rparr>, \<lparr>title = ''B'', body = ''b''\<rparr>,
            \<lparr>title = ''C'', body = ''c''\<rparr>]"]
    generate_plan_sources
      [of "\<lparr>avg_n = Finite 85, avg_m = Finite 30, anomalies = [nitrogen_label]\<rparr>" "[]"]
  by (simp add: nitrogen_label_def)

text \<open>
  C7: with an empty anomaly list the synthesis returns the GREEN recommendation with the
  summary "Optimal Conditions", the plan "Continue monitoring. No intervention
  required." and no sources, whatever the findings are.
\<close>

theorem generate_plan_healthy:
  assumes "anomalies d = []"
  shows "generate_plan d found =
           \<lparr>alert_level = ''GREEN'',
            diagnosis = ''Optimal Conditions'',
            action_plan = ''Continue monitoring. No intervention required.'',
            sources = []\<rparr>"
  using assms by (simp add: generate_plan_def)

theorem generate_plan_healthy_witness:
  "generate_plan \<lparr>avg_n = Finite 160, avg_m = Finite 30, anomalies = []\<rparr>
     [\<lparr>title = ''A'', body = ''a''\<rparr>] =
     \<lparr>alert_level = ''GREEN'',
      diagnosis = ''Optimal Conditions'',
      action_plan = ''Continue monitoring. No intervention required.'',
      sources = []\<rparr>"
  using generate_plan_healthy
    [of "\<lparr>avg_n = Finite 160, avg_m = Finite 30, anomalies = []\<rparr>" "[\<lparr>title = ''A'', body = ''a''\<rparr>]"]
  by simp

section \<open>Text containment and the text of a list\<close>

text \<open>
  The research tests \<open>"Moisture" in str(anomalies)\<close>. The text of the list wraps
  each label in quotes and escapes some of its characters; every escape starts with a
  backslash and holds no capital M, so the word occurs in the text of the list exactly
  when it occurs in one of the labels.
\<close>

lemma py_in_sublist: "py_in p s = sublist p s"
  by (induction s) (auto simp: sublist_Cons_right)

lemma hex_digit_range: "hex_digit n \<in> set ''0123456789abcdef''"
  unfolding hex_digit_def by (rule nth_mem) simp

lemma hex_digit_not_M: "hex_digit n \<noteq> CHR ''M''"
  using hex_digit_range [of n] by auto

lemma repr_char_cases:
  assumes "q \<noteq> CHR ''M''"
  shows "repr_char q c = [c] \<or> (\<exists>t. repr_char q c = CHR 0x5C # t \<and> CHR ''M'' \<notin> set t)"
  using assms by (auto simp: repr_char_def hex_digit_not_M hex_digit_not_M [symmetric])

lemma prefix_escaped:
  assumes "q \<noteq> CHR ''M''" and "CHR 0x5C \<notin> set p" and "r = [] \<or> hd r \<notin> set p"
    and "prefix p (concat (map (repr_char q) s) @ r)"
  shows "prefix p s"
  using assms(2-)
proof (induction s arbitrary: p)
  case Nil
  then show ?case by (cases p; cases r) auto
next
  case (Cons c cs)
  show ?case
  proof (cases p)
    case Nil
    then show ?thesis by simp
  next
    case (Cons a p')
    from repr_char_cases [OF assms(1), of c] show ?thesis
    proof
      assume plain: "repr_char q c = [c]"
      with Cons.prems Cons have "a = c" and "prefix p' (concat (map (repr_char q) cs) @ r)"
        by auto
      moreover have "CHR 0x5C \<notin> set p'" "r = [] \<or> hd r \<notin> set p'"
        using Cons.prems Cons by auto
      ultimately show ?thesis using Cons.IH [of p'] Cons by simp
    next
      assume "\<exists>t. repr_char q c = CHR 0x5C # t \<and> CHR ''M'' \<notin> set t"
      then obtain t where "repr_char q c = CHR 0x5C # t" by blast
      with Cons.prems Cons show ?thesis by auto
    qed
  qed
qed

lemma sublist_skip:
  assumes "x \<notin> set ys" and "sublist (x # p) (ys @ zs)"
  shows "sublist (x # p) zs"
  using assms by (induction ys) (auto simp: sublist_Cons_right)

lemma sublist_escaped:
  assumes "q \<noteq> CHR ''M''" and "CHR 0x5C \<notin> set p" and "r = [] \<or> hd r \<notin> set (CHR ''M'' # p)"
    and "sublist (CHR ''M'' # p) (concat (map (repr_char q) s) @ r)"
  shows "sublist (CHR ''M'' # p) s \<or> sublist (CHR ''M'' # p) r"
  using assms(4)
proof (induction s)
  case Nil
  then show ?case by simp
next
  case (Cons c cs)
  let ?P = "CHR ''M'' # p"
  let ?X = "concat (map (repr_char q) cs) @ r"
  from repr_char_cases [OF assms(1), of c] show ?case
  proof
    assume plain: "repr_char q c = [c]"
    with Cons.prems have "prefix ?P (c # ?X) \<or> sublist ?P ?X"
      by (simp add: sublist_Cons_right)
    then show ?thesis
    proof
      assume "prefix ?P (c # ?X)"
      then have "prefix ?P (concat (map (repr_char q) (c # cs)) @ r)"
        using plain by simp
      then have "prefix ?P (c # cs)"
        using prefix_escaped [of q ?P r "c # cs"] assms(1,2,3) by simp
      then show ?thesis by (simp add: sublist_Cons_right)
    next
      assume "sublist ?P ?X"
      then show ?thesis using Cons.IH by (auto simp: sublist_Cons_right)
    qed
  next
    assume "\<exists>t. repr_char q c = CHR 0x5C # t \<and> CHR ''M'' \<notin> set t"
    then obtain t where t: "repr_char q c = CHR 0x5C # t" "CHR ''M'' \<notin> set t" by blast
    then have "sublist ?P ((CHR 0x5C # t) @ ?X)" using Cons.prems by simp
    then have "sublist ?P ?X"
      using sublist_skip [of "CHR ''M''" "CHR 0x5C # t" p ?X] t by simp
    then show ?thesis using Cons.IH by (auto simp: sublist_Cons_right)
  qed
qed


lemma repr_quote_cases: "repr_quote s = CHR 0x27 \<or> repr_quote s = CHR 0x22"
  by (simp add: repr_quote_def)

lemma sublist_py_repr:
  assumes "sublist ''Moisture'' (py_repr s @ r)"
  shows "sublist ''Moisture'' s \<or> sublist ''Moisture'' r"
proof -
  let ?q = "repr_quote s"
  have q: "?q \<noteq> CHR ''M''" "?q \<notin> set ''Moisture''"
    using repr_quote_cases [of s] by auto
  have "sublist ''Moisture'' (?q # (concat (map (repr_char ?q) s) @ (?q # r)))"
    using assms by (simp add: py_repr_def)
  then have "sublist ''Moisture'' (concat (map (repr_char ?q) s) @ (?q # r))"
    using q by (auto simp: sublist_Cons_right)
  then have "sublist ''Moisture'' s \<or> sublist ''Moisture'' (?q # r)"
    using sublist_escaped [of ?q "''oisture''" "?q # r" s] q by simp
  then show ?thesis
    using q by (auto simp: sublist_Cons_right)
qed

lemma sublist_joined:
  assumes "sublist ''Moisture'' (py_join '', '' (map py_repr xs) @ r)"
  shows "(\<exists>x\<in>set xs. sublist ''Moisture'' x) \<or> sublist ''Moisture'' r"
  using assms
proof (induction xs)
  case Nil
  then show ?case by simp
next
  case (Cons x xs)
  show ?case
  proof (cases xs)
    case Nil
    with Cons.prems show ?thesis using sublist_py_repr [of x r] by auto
  next
    case (Cons y ys)
    with Cons.prems
    have "sublist ''Moisture'' (py_repr x @ ('', '' @ py_join '', '' (map py_repr xs) @ r))"
      by simp
    then have "sublist ''Moisture'' x \<or>
               sublist ''Moisture'' ('', '' @ py_join '', '' (map py_repr xs) @ r)"
      by (rule sublist_py_repr)
    then show ?thesis
    proof
      assume "sublist ''Moisture'' x"
      then show ?thesis by simp
    next
      assume "sublist ''Moisture'' ('', '' @ py_join '', '' (map py_repr xs) @ r)"
      then have "sublist ''Moisture'' (py_join '', '' (map py_repr xs) @ r)"
        using sublist_skip [of "CHR ''M''" "'', ''" "''oisture''"] by simp
      then show ?thesis using Cons.IH by auto
    qed
  qed
qed

lemma repr_char_plain:
  assumes "q = CHR 0x27 \<or> q = CHR 0x22"
  shows "concat (map (repr_char q) ''Moisture'') = ''Moisture''"
  using assms by (auto simp: repr_char_def is_printable_def)

lemma sublist_into_py_repr:
  assumes "sublist ''Moisture'' s"
  shows "sublist ''Moisture'' (py_repr s)"
proof -
  obtain q where q: "q = repr_quote s" by simp
  have qc: "q = CHR 0x27 \<or> q = CHR 0x22"
    using repr_quote_cases [of s] q by simp
  from assms obtain ps ss where s: "s = ps @ ''Moisture'' @ ss"
    by (auto simp: sublist_def)
  have "concat (map (repr_char q) s) =
          concat (map (repr_char q) ps) @ concat (map (repr_char q) ''Moisture'') @
          concat (map (repr_char q) ss)"
    unfolding s by (simp only: map_append concat_append)
  then have "sublist ''Moisture'' (concat (map (repr_char q) s))"
    by (simp only: repr_char_plain [OF qc] sublist_appendI)
  then have "sublist ''Moisture'' ([q] @ concat (map (repr_char q) s) @ [q])"
    by (auto simp: sublist_Cons_right sublist_append)
  then show ?thesis
    by (simp only: py_repr_def q)
qed

lemma sublist_into_joined:
  assumes "x \<in> set xs" and "sublist p x"
  shows "sublist p (py_join sep xs)"
  using assms
proof (induction sep xs rule: py_join.induct)
  case (1 sep)
  then show ?case by simp
next
  case (2 sep x)
  then show ?case by simp
next
  case (3 sep a b bs)
  then show ?case by (auto simp: sublist_append)
qed

lemma moisture_in_str_list:
  "py_in ''Moisture'' (py_str_list xs) \<longleftrightarrow> (\<exists>x\<in>set xs. py_in ''Moisture'' x)"
proof
  assume "py_in ''Moisture'' (py_str_list xs)"
  then have "sublist ''Moisture'' (''['' @ (py_join '', '' (map py_repr xs) @ '']''))"
    by (simp add: py_in_sublist py_str_list_def)
  then have "sublist ''Moisture'' (py_join '', '' (map py_repr xs) @ '']'')"
    using sublist_skip [of "CHR ''M''" "''[''" "''oisture''"] by simp
  then have "(\<exists>x\<in>set xs. sublist ''Moisture'' x) \<or> sublist ''Moisture'' '']''"
    by (rule sublist_joined)
  then show "\<exists>x\<in>set xs. py_in ''Moisture'' x"
    by (auto simp: py_in_sublist sublist_Cons_right)
next
  assume "\<exists>x\<in>set xs. py_in ''Moisture'' x"
  then obtain x where x: "x \<in> set xs" "sublist ''Moisture'' x"
    by (auto simp: py_in_sublist)
  then have "sublist ''Moisture'' (py_join '', '' (map py_repr xs))"
    using sublist_into_joined [of "py_repr x" "map py_repr xs"] sublist_into_py_repr by simp
  then show "py_in ''Moisture'' (py_str_list xs)"
    by (simp add: py_in_sublist py_str_list_def sublist_append sublist_Cons_right)
qed

section \<open>Properties of the research\<close>

text \<open>
  C8: on the empty anomaly list the research returns the empty list of findings and
  makes no call of the lookup, for every crop, with or without a tool.
\<close>

theorem research_solutions_empty:
  "research_solutions env agent [] crop = (Inr [], [], agent)"
  by (simp add: research_solutions_def)

text \<open>
  A consultant built with \<open>use_search = False\<close> has no tool: on a non-empty anomaly
  list the first lookup raises \<open>AttributeError\<close> and no query is issued.
\<close>

lemma research_solutions_without_tool:
  assumes "given \<noteq> []" and "search_tool agent = None"
  shows "research_solutions env agent given crop = (Inl AttributeError, [], agent)"
  using assms by (simp add: research_solutions_def)

text \<open>
  The loop of the research, for a tool that is in simulation mode or holds the fallback
  key (every tool built by \<open>AgriSearch_init\<close> does, and the loop keeps it so): no
  call returns \<open>None\<close>, the run ends without an exception, and the findings are the
  returned documents in the order of the calls.
\<close>

lemma map_of_stored:
  "map_of (map (\<lambda>(k, v). if k = key then (k, docs) else (k, v)) db) k' =
     (if k' = key then map_option (\<lambda>_. docs) (map_of db k') else map_of db k')"
  by (induction db) auto

lemma search_returns:
  assumes "simulation_mode self \<or> map_of (mock_db self) fallback_key \<noteq> None"
  shows "\<exists>ds. docs_of self (search env self q n) = Some ds \<and>
              search env self q n \<noteq> NoneResult"
  using assms
  by (auto simp: search_def docs_of_def Let_def split: option.splits)

lemma extend_result_docs:
  assumes "simulation_mode self \<or> map_of (mock_db self) fallback_key \<noteq> None"
    and "docs_of self r = Some ds"
  shows "\<exists>r2 self2. extend_result self r extra = (r2, self2) \<and>
           docs_of self2 r2 = Some (ds @ extra) \<and>
           (simulation_mode self2 \<or> map_of (mock_db self2) fallback_key \<noteq> None)"
proof (cases r)
  case (Fresh docs)
  with assms show ?thesis by (simp add: extend_result_def docs_of_def)
next
  case (Stored key)
  with assms(2) have "map_of (mock_db self) key = Some ds"
    by (simp add: docs_of_def)
  with Stored assms(1) show ?thesis
    by (auto simp: extend_result_def docs_of_def store_list_def map_of_stored)
next
  case NoneResult
  with assms(2) show ?thesis by (simp add: docs_of_def)
qed

lemma research_loop_plain_step:
  assumes "\<not> (py_in ''Nitrogen'' issue \<and> py_in ''Moisture'' (py_str_list given))"
    and "docs_of self (search env self (primary_query crop issue) default_max_results) = Some ds"
  shows "research_loop env given crop (issue # rest) self found calls =
           research_loop env given crop rest self (found @ ds)
             (calls @ [(primary_query crop issue, Some ds)])"
proof -
  have "(py_in ''Nitrogen'' issue \<and> py_in ''Moisture'' (py_str_list given)) = False"
    using assms(1) by simp
  then show ?thesis
    using assms(2) by (simp only: research_loop.simps Let_def if_False option.case)
qed

lemma research_loop_refined_step:
  assumes "py_in ''Nitrogen'' issue \<and> py_in ''Moisture'' (py_str_list given)"
    and "search env self (primary_query crop issue) default_max_results \<noteq> NoneResult"
    and "docs_of self (search env self (primary_query crop issue) default_max_results) = Some ds"
    and "docs_of self (search env self (refinement_query crop) default_max_results) = Some extra"
    and "extend_result self (search env self (primary_query crop issue) default_max_results) extra
           = (r2, self2)"
    and "docs_of self2 r2 = Some both"
  shows "research_loop env given crop (issue # rest) self found calls =
           research_loop env given crop rest self2 (found @ both)
             (calls @ [(primary_query crop issue, Some ds), (refinement_query crop, Some extra)])"
proof -
  have "(py_in ''Nitrogen'' issue \<and> py_in ''Moisture'' (py_str_list given)) = True"
    using assms(1) by simp
  then show ?thesis
    using assms(2-)
    by (simp only: research_loop.simps Let_def if_True if_False option.case prod.case
          append_assoc append_Cons append_Nil)
qed

lemma research_loop_trace:
  assumes "simulation_mode self \<or> map_of (mock_db self) fallback_key \<noteq> None"
  shows "\<exists>found2 new chunks self2.
           research_loop env given crop rest self found calls = (Inr found2, calls @ new, self2) \<and>
           map fst new =
             concat (map (\<lambda>issue. primary_query crop issue #
                            (if py_in ''Nitrogen'' issue \<and> py_in ''Moisture'' (py_str_list given)
                             then [refinement_query crop] else [])) rest) \<and>
           map snd new = map Some chunks \<and>
           found2 = found @ concat chunks"
  using assms
proof (induction rest arbitrary: self found calls)
  case Nil
  show ?case
    by (rule exI [of _ found], rule exI [of _ "[]"], rule exI [of _ "[]"], rule exI [of _ self])
      simp
next
  case (Cons issue rest)
  let ?first = "search env self (primary_query crop issue) default_max_results"
  let ?second = "search env self (refinement_query crop) default_max_results"
  from search_returns [OF Cons.prems] obtain ds where
    ds: "docs_of self ?first = Some ds" "?first \<noteq> NoneResult"
    by blast
  show ?case
  proof (cases "py_in ''Nitrogen'' issue \<and> py_in ''Moisture'' (py_str_list given)")
    case False
    from Cons.IH [OF Cons.prems, of "found @ ds" "calls @ [(primary_query crop issue, Some ds)]"]
    obtain found2 new chunks self2 where
      ih: "research_loop env given crop rest self (found @ ds)
             (calls @ [(primary_query crop issue, Some ds)])
           = (Inr found2, (calls @ [(primary_query crop issue, Some ds)]) @ new, self2)"
        "map fst new =
           concat (map (\<lambda>issue. primary_query crop issue #
                          (if py_in ''Nitrogen'' issue \<and> py_in ''Moisture'' (py_str_list given)
                           then [refinement_query crop] else [])) rest)"
        "map snd new = map Some chunks"
        "found2 = (found @ ds) @ concat chunks"
      by blast
    let ?new = "(primary_query crop issue, Some ds) # new"
    have step: "research_loop env given crop (issue # rest) self found calls
            = (Inr found2, calls @ ?new, self2)"
      using research_loop_plain_step [OF False ds(1)] ih(1) by simp
    have "map fst ?new =
           concat (map (\<lambda>issue. primary_query crop issue #
                          (if py_in ''Nitrogen'' issue \<and> py_in ''Moisture'' (py_str_list given)
                           then [refinement_query crop] else [])) (issue # rest))"
      using False ih(2) by simp
    moreover have "map snd ?new = map Some (ds # chunks)"
      using ih(3) by simp
    moreover have "found2 = found @ concat (ds # chunks)"
      using ih(4) by simp
    ultimately show ?thesis
      using step
      by - (rule exI [of _ found2], rule exI [of _ ?new], rule exI [of _ "ds # chunks"],
          rule exI [of _ self2], simp)
  next
    case True
    from search_returns [OF Cons.prems] obtain extra where
      extra: "docs_of self ?second = Some extra"
      by blast
    from extend_result_docs [OF Cons.prems ds(1), of extra] obtain r2 self1 where
      ext: "extend_result self ?first extra = (r2, self1)"
        "docs_of self1 r2 = Some (ds @ extra)"
        "simulation_mode self1 \<or> map_of (mock_db self1) fallback_key \<noteq> None"
      by blast
    let ?two = "[(primary_query crop issue, Some ds), (refinement_query crop, Some extra)]"
    from Cons.IH [OF ext(3), of "found @ (ds @ extra)" "calls @ ?two"]
    obtain found2 new chunks self2 where
      ih: "research_loop env given crop rest self1 (found @ (ds @ extra)) (calls @ ?two)
           = (Inr found2, (calls @ ?two) @ new, self2)"
        "map fst new =
           concat (map (\<lambda>issue. primary_query crop issue #
                          (if py_in ''Nitrogen'' issue \<and> py_in ''Moisture'' (py_str_list given)
                           then [refinement_query crop] else [])) rest)"
        "map snd new = map Some chunks"
        "found2 = (found @ (ds @ extra)) @ concat chunks"
      by blast
    let ?new = "?two @ new"
    have step: "research_loop env given crop (issue # rest) self found calls
            = (Inr found2, calls @ ?new, self2)"
      using research_loop_refined_step [OF True ds(2) ds(1) extra ext(1) ext(2)] ih(1) by simp
    have "map fst ?new =
           concat (map (\<lambda>issue. primary_query crop issue #
                          (if py_in ''Nitrogen'' issue \<and> py_in ''Moisture'' (py_str_list given)
                           then [refinement_query crop] else [])) (issue # rest))"
      using True ih(2) by simp
    moreover have "map snd ?new = map Some (ds # extra # chunks)"
      using ih(3) by simp
    moreover have "found2 = found @ concat (ds # extra # chunks)"
      using ih(4) by simp
    ultimately show ?thesis
      using step
      by - (rule exI [of _ found2], rule exI [of _ ?new], rule exI [of _ "ds # extra # chunks"],
          rule exI [of _ self2], simp)
  qed
qed


text \<open>
  In simulation mode every lookup returns a list of its own, so the tool never changes:
  each call is answered as the tool answers in its first state.
\<close>

lemma search_simulation_fresh:
  assumes "simulation_mode self"
  shows "\<exists>ds. search env self q n = Fresh ds"
  using assms by (simp add: search_def Let_def)

lemma research_loop_simulation:
  assumes "simulation_mode self"
  shows "\<exists>found2 chunks.
           research_loop env given crop rest self found calls =
             (Inr found2,
              calls @
              map (\<lambda>q. (q, docs_of self (search env self q default_max_results)))
                (concat (map (\<lambda>issue. primary_query crop issue #
                           (if py_in ''Nitrogen'' issue \<and> py_in ''Moisture'' (py_str_list given)
                            then [refinement_query crop] else [])) rest)),
              self) \<and>
           map Some chunks =
             map (\<lambda>q. docs_of self (search env self q default_max_results))
               (concat (map (\<lambda>issue. primary_query crop issue #
                          (if py_in ''Nitrogen'' issue \<and> py_in ''Moisture'' (py_str_list given)
                           then [refinement_query crop] else [])) rest)) \<and>
           found2 = found @ concat chunks"
proof (induction rest arbitrary: found calls)
  case Nil
  show ?case
    by (rule exI [of _ found], rule exI [of _ "[]"]) simp
next
  case (Cons issue rest)
  let ?first = "search env self (primary_query crop issue) default_max_results"
  let ?second = "search env self (refinement_query crop) default_max_results"
  from search_simulation_fresh [OF assms] obtain ds where ds: "?first = Fresh ds"
    by blast
  show ?case
  proof (cases "py_in ''Nitrogen'' issue \<and> py_in ''Moisture'' (py_str_list given)")
    case False
    have d: "docs_of self ?first = Some ds"
      by (simp add: ds docs_of_def)
    from Cons.IH [of "found @ ds" "calls @ [(primary_query crop issue, Some ds)]"]
    obtain found2 chunks where
      ih: "research_loop env given crop rest self (found @ ds)
             (calls @ [(primary_query crop issue, Some ds)])
           = (Inr found2,
              (calls @ [(primary_query crop issue, Some ds)]) @
              map (\<lambda>q. (q, docs_of self (search env self q default_max_results)))
                (concat (map (\<lambda>issue. primary_query crop issue #
                           (if py_in ''Nitrogen'' issue \<and> py_in ''Moisture'' (py_str_list given)
                            then [refinement_query crop] else [])) rest)),
              self)"
        "map Some chunks =
           map (\<lambda>q. docs_of self (search env self q default_max_results))
             (concat (map (\<lambda>issue. primary_query crop issue #
                        (if py_in ''Nitrogen'' issue \<and> py_in ''Moisture'' (py_str_list given)
                         then [refinement_query crop] else [])) rest))"
        "found2 = (found @ ds) @ concat chunks"
      by blast
    show ?thesis
      unfolding research_loop_plain_step [OF False d] ih(1)
      using ih(2,3) False d
      by - (rule exI [of _ found2], rule exI [of _ "ds # chunks"], simp)
  next
    case True
    from search_simulation_fresh [OF assms] obtain extra where extra: "?second = Fresh extra"
      by blast
    have d: "docs_of self ?first = Some ds" "?first \<noteq> NoneResult"
      by (simp_all add: ds docs_of_def)
    have e: "docs_of self ?second = Some extra"
      by (simp add: extra docs_of_def)
    have x: "extend_result self ?first extra = (Fresh (ds @ extra), self)"
      by (simp add: ds extend_result_def)
    have b: "docs_of self (Fresh (ds @ extra)) = Some (ds @ extra)"
      by (simp add: docs_of_def)
    let ?two = "[(primary_query crop issue, Some ds), (refinement_query crop, Some extra)]"
    from Cons.IH [of "found @ (ds @ extra)" "calls @ ?two"]
    obtain found2 chunks where
      ih: "research_loop env given crop rest self (found @ (ds @ extra)) (calls @ ?two)
           = (Inr found2,
              (calls @ ?two) @
              map (\<lambda>q. (q, docs_of self (search env self q default_max_results)))
                (concat (map (\<lambda>issue. primary_query crop issue #
                           (if py_in ''Nitrogen'' issue \<and> py_in ''Moisture'' (py_str_list given)
                            then [refinement_query crop] else [])) rest)),
              self)"
        "map Some chunks =
           map (\<lambda>q. docs_of self (search env self q default_max_results))
             (concat (map (\<lambda>issue. primary_query crop issue #
                        (if py_in ''Nitrogen'' issue \<and> py_in ''Moisture'' (py_str_list given)
                         then [refinement_query crop] else [])) rest))"
        "found2 = (found @ (ds @ extra)) @ concat chunks"
      by blast
    show ?thesis
      unfolding research_loop_refined_step [OF True d(2) d(1) e x b] ih(1)
      using ih(2,3) True d(1) e
      by - (rule exI [of _ found2], rule exI [of _ "ds # extra # chunks"], simp)
  qed
qed

text \<open>
  C1: the research, given a consultant with a tool, issues for each anomaly label in
  order its primary query "{crop} {label} treatments" and, directly after it, one
  secondary query "{crop} nitrogen deficiency heavy rainfall leaching" if and only if
  this label contains "Nitrogen" and some label of the list contains "Moisture"; no
  other query is issued. The returned findings are the documents returned by these
  calls, in the order of the calls, so the documents of a secondary query follow the
  documents of the primary query of the same label. In simulation mode, the mode of
  every consultant's tool, the documents of each call are the ones \<open>search\<close> returns
  for its query, and the consultant is left unchanged.
\<close>

theorem research_solutions_queries:
  assumes "search_tool agent = Some self"
    and "simulation_mode self \<or> map_of (mock_db self) fallback_key \<noteq> None"
  shows "\<exists>found calls chunks agent2.
           research_solutions env agent given crop = (Inr found, calls, agent2) \<and>
           map fst calls =
             concat (map (\<lambda>issue. (crop @ '' '' @ issue @ '' treatments'') #
                            (if py_in ''Nitrogen'' issue \<and> (\<exists>a\<in>set given. py_in ''Moisture'' a)
                             then [crop @ '' nitrogen deficiency heavy rainfall leaching'']
                             else [])) given) \<and>
           map snd calls = map Some chunks \<and>
           found = concat chunks \<and>
           (simulation_mode self \<longrightarrow>
              map snd calls =
                map (\<lambda>q. docs_of self (search env self q default_max_results)) (map fst calls) \<and>
              agent2 = agent)"
proof (cases "given = []")
  case True
  show ?thesis
    by (rule exI [of _ "[]"], rule exI [of _ "[]"], rule exI [of _ "[]"], rule exI [of _ agent])
      (simp add: True research_solutions_def)
next
  case False
  let ?Q = "concat (map (\<lambda>issue. primary_query crop issue #
                        (if py_in ''Nitrogen'' issue \<and> py_in ''Moisture'' (py_str_list given)
                         then [refinement_query crop] else [])) given)"
  have Q: "?Q =
             concat (map (\<lambda>issue. (crop @ '' '' @ issue @ '' treatments'') #
                            (if py_in ''Nitrogen'' issue \<and> (\<exists>a\<in>set given. py_in ''Moisture'' a)
                             then [crop @ '' nitrogen deficiency heavy rainfall leaching'']
                             else [])) given)"
    by (simp only: moisture_in_str_list primary_query_def refinement_query_def)
  have same: "agent\<lparr>search_tool := Some self\<rparr> = agent"
    using assms(1) by simp
  show ?thesis
  proof (cases "simulation_mode self")
    case sim: True
    from research_loop_simulation [OF sim, of env given crop given "[]" "[]"]
    obtain found2 chunks where
      run: "research_loop env given crop given self [] [] =
              (Inr found2,
               [] @ map (\<lambda>q. (q, docs_of self (search env self q default_max_results))) ?Q,
               self)"
        "map Some chunks =
           map (\<lambda>q. docs_of self (search env self q default_max_results)) ?Q"
        "found2 = [] @ concat chunks"
      by blast
    let ?calls = "map (\<lambda>q. (q, docs_of self (search env self q default_max_results))) ?Q"
    have r: "research_solutions env agent given crop = (Inr found2, ?calls, agent)"
      using False assms(1) run(1) same by (simp add: research_solutions_def)
    have f: "map fst ?calls = ?Q"
      by (simp add: comp_def)
    have s: "map snd ?calls =
               map (\<lambda>q. docs_of self (search env self q default_max_results)) ?Q"
      by (simp add: comp_def)
    show ?thesis
      using r f s run(2,3) Q
      by - (rule exI [of _ found2], rule exI [of _ ?calls], rule exI [of _ chunks],
          rule exI [of _ agent], simp)
  next
    case live: False
    from research_loop_trace [OF assms(2), of env given crop given "[]" "[]"]
    obtain found2 new chunks self2 where
      run: "research_loop env given crop given self [] [] = (Inr found2, [] @ new, self2)"
        "map fst new = ?Q"
        "map snd new = map Some chunks"
        "found2 = [] @ concat chunks"
      by blast
    have r: "research_solutions env agent given crop
            = (Inr found2, new, agent\<lparr>search_tool := Some self2\<rparr>)"
      using False assms(1) run(1) by (simp add: research_solutions_def)
    show ?thesis
      using r run(2,3,4) Q live
      by - (rule exI [of _ found2], rule exI [of _ new], rule exI [of _ chunks],
          rule exI [of _ "agent\<lparr>search_tool := Some self2\<rparr>"], simp)
  qed
qed

theorem research_solutions_queries_witness:
  "\<exists>found calls.
     research_solutions None (CropConsultant_init True)
       [''Nitrogen Deficiency detected across multiple zones'',
        ''Excessive Soil Moisture detected''] ''corn''
       = (Inr found, calls, CropConsultant_init True) \<and>
     map fst calls =
       [''corn Nitrogen Deficiency detected across multiple zones treatments'',
        ''corn nitrogen deficiency heavy rainfall leaching'',
        ''corn Excessive Soil Moisture detected treatments''] \<and>
     map title found =
       [''Management of Nitrogen Deficiency in Corn'',
        ''Identifying Nutrient Deficiencies in Corn'',
        ''Wet Season Corn Nitrogen Management'',
        ''Nitrogen Loss from Heavy Rains'',
        ''Agricultural Bulletin: corn Excessive Soil Moisture detected treatments'']"
proof -
  let ?tool = "AgriSearch_init True"
  have tool: "search_tool (CropConsultant_init True) = Some ?tool"
    by (simp add: CropConsultant_init_def)
  have sim: "simulation_mode ?tool"
    by (simp add: AgriSearch_init_def)
  then have mode: "simulation_mode ?tool \<or> map_of (mock_db ?tool) fallback_key \<noteq> None"
    by simp
  have s1: "map_option (map title)
              (docs_of ?tool
                (search None ?tool
                  ''corn Nitrogen Deficiency detected across multiple zones treatments''
                  default_max_results))
            = Some [''Management of Nitrogen Deficiency in Corn'',
                    ''Identifying Nutrient Deficiencies in Corn'',
                    ''Wet Season Corn Nitrogen Management'']"
    by (simp add: search_def docs_of_def AgriSearch_init_def mock_db_init_def key_matches_def
          py_split_def py_lower_def lower_char_def is_space_def py_slice_to_def
          default_max_results_def char_of_def bit_0)
  have s2: "map_option (map title)
              (docs_of ?tool
                (search None ?tool ''corn nitrogen deficiency heavy rainfall leaching''
                  default_max_results))
            = Some [''Nitrogen Loss from Heavy Rains'']"
    by (simp add: search_def docs_of_def AgriSearch_init_def mock_db_init_def key_matches_def
          py_split_def py_lower_def lower_char_def is_space_def py_slice_to_def
          default_max_results_def char_of_def bit_0)
  have s3: "map_option (map title)
              (docs_of ?tool
                (search None ?tool ''corn Excessive Soil Moisture detected treatments''
                  default_max_results))
            = Some [''Agricultural Bulletin: corn Excessive Soil Moisture detected treatments'']"
    by (simp add: search_def docs_of_def AgriSearch_init_def mock_db_init_def key_matches_def
          py_split_def py_lower_def lower_char_def is_space_def py_slice_to_def
          default_max_results_def generic_doc_def char_of_def bit_0)
  from research_solutions_queries [OF tool mode, of None
        "[''Nitrogen Deficiency detected across multiple zones'',
          ''Excessive Soil Moisture detected'']" "''corn''"] sim
  obtain found calls chunks where
    run: "research_solutions None (CropConsultant_init True)
            [''Nitrogen Deficiency detected across multiple zones'',
             ''Excessive Soil Moisture detected''] ''corn''
          = (Inr found, calls, CropConsultant_init True)"
    and q: "map fst calls =
       [''corn Nitrogen Deficiency detected across multiple zones treatments'',
        ''corn nitrogen deficiency heavy rainfall leaching'',
        ''corn Excessive Soil Moisture detected treatments'']"
    and c: "map snd calls = map Some chunks" "found = concat chunks"
    and t: "map snd calls =
              map (\<lambda>q. docs_of ?tool (search None ?tool q default_max_results)) (map fst calls)"
    by auto
  from t c(1) q have
    "map Some chunks =
       [docs_of ?tool (search None ?tool
          ''corn Nitrogen Deficiency detected across multiple zones treatments''
          default_max_results),
        docs_of ?tool (search None ?tool ''corn nitrogen deficiency heavy rainfall leaching''
          default_max_results),
        docs_of ?tool (search None ?tool ''corn Excessive Soil Moisture detected treatments''
          default_max_results)]"
    by simp
  then have "map (map_option (map title)) (map Some chunks) =
       [Some [''Management of Nitrogen Deficiency in Corn'',
              ''Identifying Nutrient Deficiencies in Corn'',
              ''Wet Season Corn Nitrogen Management''],
        Some [''Nitrogen Loss from Heavy Rains''],
        Some [''Agricultural Bulletin: corn Excessive Soil Moisture detected treatments'']]"
    by (simp only: list.map s1 s2 s3)
  then have "map (map title) chunks =
       [[''Management of Nitrogen Deficiency in Corn'',
         ''Identifying Nutrient Deficiencies in Corn'',
         ''Wet Season Corn Nitrogen Management''],
        [''Nitrogen Loss from Heavy Rains''],
        [''Agricultural Bulletin: corn Excessive Soil Moisture detected treatments'']]"
    by (auto simp: map_eq_Cons_conv)
  then have "concat (map (map title) chunks) =
       [''Management of Nitrogen Deficiency in Corn'',
        ''Identifying Nutrient Deficiencies in Corn'',
        ''Wet Season Corn Nitrogen Management'',
        ''Nitrogen Loss from Heavy Rains'',
        ''Agricultural Bulletin: corn Excessive Soil Moisture detected treatments'']"
    by simp
  then have "map title found =
       [''Management of Nitrogen Deficiency in Corn'',
        ''Identifying Nutrient Deficiencies in Corn'',
        ''Wet Season Corn Nitrogen Management'',
        ''Nitrogen Loss from Heavy Rains'',
        ''Agricultural Bulletin: corn Excessive Soil Moisture detected treatments'']"
    using c(2) by (simp add: map_concat)
  with run q show ?thesis
    by - (rule exI [of _ found], rule exI [of _ calls], intro conjI, assumption+)
qed

section \<open>Properties of the knowledge lookup\<close>

lemma collect_concat:
  "collect q db acc = acc @ concat (map snd (filter (\<lambda>(key, res_list). key_matches q key) db))"
  by (induction db arbitrary: acc) auto

text \<open>
  C10: in simulation mode, with a positive \<open>max_results\<close> (the default is 3), the
  lookup returns a non-empty list for every query; when no key of the mock database
  matches, the list is the one generic document, whose title is "Agricultural
  Bulletin: " followed by the query. So no query gets an empty answer from the
  simulated lookup.
\<close>

theorem search_simulation_nonempty:
  assumes "simulation_mode self" and "0 < max_results"
  shows "\<exists>docs. search env self query max_results = Fresh docs \<and> docs \<noteq> [] \<and>
           ((\<forall>(key, res_list) \<in> set (mock_db self). \<not> key_matches (py_lower query) key) \<longrightarrow>
              docs = [generic_doc query] \<and>
              title (generic_doc query) = ''Agricultural Bulletin: '' @ query)"
proof (cases "collect (py_lower query) (mock_db self) [] = []")
  case True
  then show ?thesis
    using assms(1) by (simp add: search_def generic_doc_def)
next
  case False
  then have "\<not> (\<forall>(key, res_list) \<in> set (mock_db self). \<not> key_matches (py_lower query) key)"
    by (auto simp: collect_concat)
  moreover have "py_slice_to (collect (py_lower query) (mock_db self) []) max_results \<noteq> []"
    using False assms(2) by (simp add: py_slice_to_def)
  ultimately show ?thesis
    using False assms(1) by (auto simp: search_def)
qed

theorem search_simulation_nonempty_witness:
  "search None (AgriSearch_init True) ''wheat rust'' default_max_results
     = Fresh [generic_doc ''wheat rust''] \<and>
   title (generic_doc ''wheat rust'') = ''Agricultural Bulletin: wheat rust''"
proof -
  have mode: "simulation_mode (AgriSearch_init True)"
    by (simp add: AgriSearch_init_def)
  have pos: "0 < default_max_results"
    by (simp add: default_max_results_def)
  have none: "\<forall>(key, res_list) \<in> set (mock_db (AgriSearch_init True)).
                \<not> key_matches (py_lower ''wheat rust'') key"
    by (simp add: AgriSearch_init_def mock_db_init_def key_matches_def py_split_def
          py_lower_def lower_char_def is_space_def)
  show ?thesis
    using search_simulation_nonempty [OF mode pos, of None "''wheat rust''"] none
    by auto
qed

text \<open>
  In simulation mode the answer has at most \<open>max_results\<close> documents.
\<close>

lemma search_simulation_bounded:
  assumes "simulation_mode self" and "0 < max_results"
  shows "\<exists>docs. search env self query max_results = Fresh docs \<and>
           int (length docs) \<le> max_results"
  using assms by (auto simp: search_def py_slice_to_def Let_def)

text \<open>
  C9, as the code has it: in live mode, when the backend is missing, the lookup returns
  the list stored under the fallback key whatever \<open>max_results\<close> is. With
  \<open>max_results = 1\<close> it returns three documents.
\<close>

theorem search_live_fallback_exceeds_max_results:
  "search None (AgriSearch_init False) ''wheat rust'' 1 = Stored fallback_key \<and>
   map_option length
     (docs_of (AgriSearch_init False) (search None (AgriSearch_init False) ''wheat rust'' 1))
     = Some 3"
  by (simp add: search_def docs_of_def AgriSearch_init_def mock_db_init_def fallback_key_def)

end
